theory Spec2Isabelle
  imports Complex_Main "HOL-Library.Word"
begin

unbundle bit_operations_syntax

section \<open>Python strings\<close>

text \<open>
  A Python \<^verbatim>\<open>str\<close> is modelled as a \<^typ>\<open>string\<close>: every \<^typ>\<open>char\<close> stands for
  the Unicode code point of the same number, so the model covers the texts whose code points
  are below 256 (ASCII and Latin-1). On that range \<^verbatim>\<open>str.isspace\<close>, \<^verbatim>\<open>str.lower\<close>,
  \<^verbatim>\<open>str.strip()\<close>, \<^verbatim>\<open>str.split()\<close>, the substring test \<^verbatim>\<open>w in s\<close> and
  \<^verbatim>\<open>sep.join\<close> are written out below as CPython computes them.
\<close>

definition py_isspace :: "char \<Rightarrow> bool" where
  "py_isspace c =
     (let n = (of_char c :: nat)
      in (9 \<le> n \<and> n \<le> 13) \<or> (28 \<le> n \<and> n \<le> 32) \<or> n = 133 \<or> n = 160)"

definition py_lower_char :: "char \<Rightarrow> char" where
  "py_lower_char c =
     (let n = (of_char c :: nat)
      in if (65 \<le> n \<and> n \<le> 90) \<or> (192 \<le> n \<and> n \<le> 222 \<and> n \<noteq> 215)
         then char_of (n + 32) else c)"

definition lower :: "string \<Rightarrow> string" where
  "lower s = map py_lower_char s"

definition lstrip :: "string \<Rightarrow> string" where
  "lstrip s = dropWhile py_isspace s"

definition rstrip :: "string \<Rightarrow> string" where
  "rstrip s = rev (dropWhile py_isspace (rev s))"

definition strip :: "string \<Rightarrow> string" where
  "strip s = rstrip (lstrip s)"

text \<open>
  \<^verbatim>\<open>s.split()\<close> with no argument: runs of whitespace separate the tokens, and no token is
  empty. \<open>split_from cur s\<close> scans \<open>s\<close> with the token read so far in \<open>cur\<close>.
\<close>

fun split_from :: "string \<Rightarrow> string \<Rightarrow> string list" where
  "split_from cur [] = (if cur = [] then [] else [cur])"
| "split_from cur (c # cs) =
     (if py_isspace c
      then (if cur = [] then split_from [] cs else cur # split_from [] cs)
      else split_from (cur @ [c]) cs)"

definition split :: "string \<Rightarrow> string list" where
  "split s = split_from [] s"

fun startswith :: "string \<Rightarrow> string \<Rightarrow> bool" where
  "startswith s [] = True"
| "startswith [] (w # ws) = False"
| "startswith (c # cs) (w # ws) = (c = w \<and> startswith cs ws)"

text \<open>\<open>contains s w\<close> is Python's \<^verbatim>\<open>w in s\<close> on strings.\<close>

fun contains :: "string \<Rightarrow> string \<Rightarrow> bool" where
  "contains [] w = (w = [])"
| "contains (c # cs) w = (startswith (c # cs) w \<or> contains cs w)"

fun join :: "string \<Rightarrow> string list \<Rightarrow> string" where
  "join sep [] = []"
| "join sep [x] = x"
| "join sep (x # y # ys) = x @ sep @ join sep (y # ys)"

section \<open>The conversation classifier (backend/rag/chain.py)\<close>

definition greetings :: "string list" where
  "greetings =
     [''hi'', ''hello'', ''hey'', ''good morning'', ''good afternoon'', ''good evening'',
      ''how are you'', ''how's it going'', ''what's up'', ''how do you do'',
      ''thanks'', ''thank you'', ''bye'', ''goodbye'', ''see you later'',
      ''nice to meet you'', ''pleasure to meet you'']"

definition filler_words :: "string list" where
  "filler_words = [''hi'', ''hello'', ''hey'', ''ok'', ''yes'', ''no'']"

text \<open>
  \<^verbatim>\<open>RAGChain._is_general_conversation\<close>. The phrase test and the substring test read
  \<open>message_lower\<close>; the token count reads the message as it was given.
\<close>

definition is_general_conversation :: "string \<Rightarrow> bool" where
  "is_general_conversation message =
     (let message_lower = strip (lower message)
      in if message_lower \<in> set greetings then True
         else if length (split message) \<le> 2
                 \<and> list_ex (\<lambda>word. contains message_lower word) filler_words then True
         else False)"

text \<open>
  The classifier as the specification words it (section 4.5): on the trimmed message,
  compared without regard to case, (a) the message is one of the fixed phrases, or (b) it
  has at most two whitespace-delimited tokens and contains one of the filler words.
\<close>

definition spec_isGeneralConversation :: "string \<Rightarrow> bool" where
  "spec_isGeneralConversation message =
     (let m = lower (strip message)
      in m \<in> set greetings
         \<or> (length (split m) \<le> 2 \<and> (\<exists>w \<in> set filler_words. contains m w)))"

section \<open>Retrieval (backend/rag/vectorstore.py)\<close>

text \<open>
  The embedding service, the vector index and the chat model are external services. They
  are parameters of the model: each call either raises (\<open>Inl\<close> with the exception's text)
  or returns. Every function that calls one returns, beside its result, the list of the
  calls it made, in order, so that a claim can say which calls were issued and with what.

  A match of the index carries an id, a score and, when the index sent one, a metadata
  mapping; the score is a float, read here as the real number it denotes (no float lies
  strictly between the float \<^verbatim>\<open>0.3\<close> and the real \<open>3/10\<close>, so the comparison
  \<^verbatim>\<open>score > 0.3\<close> is the same on both).
\<close>

type_synonym metadata = "string \<rightharpoonup> string"

record raw_match =
  r_id :: string
  r_score :: real
  r_metadata :: "metadata option"

record match =
  m_id :: string
  m_score :: real
  m_metadata :: metadata

record chat_message =
  role :: string
  content :: string

datatype error =
    UnsupportedFileType string
  | IndexError
  | ExternalFailure string

datatype event =
    EmbeddingsCreate "string list"
  | IndexQuery "real list" int string
  | ChatCreate "chat_message list"

record services =
  embeddings_create :: "string list \<Rightarrow> string + real list list"
  index_query :: "real list \<Rightarrow> int \<Rightarrow> string \<Rightarrow> string + raw_match list option"
  chat_create :: "chat_message list \<Rightarrow> string + string list"

text \<open>\<^verbatim>\<open>PineconeVectorStore.embed_texts\<close>: no call is made for an empty list.\<close>

definition embed_texts :: "services \<Rightarrow> string list \<Rightarrow> event list \<times> (error + real list list)" where
  "embed_texts sv texts =
     (if texts = [] then ([], Inr [])
      else ([EmbeddingsCreate texts],
            (case embeddings_create sv texts of
               Inl e \<Rightarrow> Inl (ExternalFailure e)
             | Inr vectors \<Rightarrow> Inr vectors)))"

text \<open>\<^verbatim>\<open>namespace or "default"\<close>: \<^verbatim>\<open>None\<close> and the empty string both give the default.\<close>

definition namespace_or_default :: "string option \<Rightarrow> string" where
  "namespace_or_default namespace =
     (case namespace of None \<Rightarrow> ''default'' | Some n \<Rightarrow> if n = [] then ''default'' else n)"

definition normalize_match :: "raw_match \<Rightarrow> match" where
  "normalize_match m =
     \<lparr>m_id = r_id m, m_score = r_score m,
      m_metadata = (case r_metadata m of None \<Rightarrow> Map.empty | Some meta \<Rightarrow> meta)\<rparr>"

text \<open>
  \<^verbatim>\<open>PineconeVectorStore.query\<close>: embeds the query text, takes the first vector
  (\<^verbatim>\<open>[0]\<close> raises \<^verbatim>\<open>IndexError\<close> when none came back), queries the index once and
  normalises the matches, keeping their order.
\<close>

definition query :: "services \<Rightarrow> string \<Rightarrow> int \<Rightarrow> string option \<Rightarrow> event list \<times> (error + match list)" where
  "query sv q top_k namespace =
     (case embed_texts sv [q] of
        (t1, Inl e) \<Rightarrow> (t1, Inl e)
      | (t1, Inr []) \<Rightarrow> (t1, Inl IndexError)
      | (t1, Inr (query_vec # _)) \<Rightarrow>
          (let ns = namespace_or_default namespace;
               t2 = t1 @ [IndexQuery query_vec top_k ns]
           in case index_query sv query_vec top_k ns of
                Inl e \<Rightarrow> (t2, Inl (ExternalFailure e))
              | Inr result \<Rightarrow>
                  (t2, Inr (map normalize_match (case result of None \<Rightarrow> [] | Some ms \<Rightarrow> ms)))))"

section \<open>The answering chain (backend/rag/chain.py)\<close>

definition SYSTEM_PROMPT :: string where
  "SYSTEM_PROMPT =
     ''You are a helpful AI assistant that can answer questions about uploaded documents and engage in general conversation. ''
     @ ''When you have relevant document context provided, use it to give accurate, detailed answers. ''
     @ ''When no relevant context is available, you can still help with general questions using your knowledge. ''
     @ ''Always be friendly, helpful, and conversational. If you reference information from the provided documents, ''
     @ ''mention that it's from the uploaded content.''"

text \<open>
  \<^verbatim>\<open>meta.get("text") or meta.get("content") or ""\<close>: a missing or empty text gives way to
  the content, a missing or empty content to the empty string.
\<close>

definition snippet_of :: "metadata \<Rightarrow> string" where
  "snippet_of meta =
     (case meta ''text'' of
        Some t \<Rightarrow> if t \<noteq> [] then t else (case meta ''content'' of Some c \<Rightarrow> c | None \<Rightarrow> [])
      | None \<Rightarrow> (case meta ''content'' of Some c \<Rightarrow> c | None \<Rightarrow> []))"

fun context_lines :: "match list \<Rightarrow> string list" where
  "context_lines [] = []"
| "context_lines (d # docs) =
     (let meta = m_metadata d;
          source = (case meta ''source'' of None \<Rightarrow> ''unknown'' | Some src \<Rightarrow> src);
          snippet = snippet_of meta;
          header = ''Source: '' @ source
      in [header, snippet, []] @ context_lines docs)"

text \<open>\<^verbatim>\<open>RAGChain._build_context\<close>: three lines per match, joined by newlines.\<close>

definition build_context :: "match list \<Rightarrow> string" where
  "build_context docs = join ''\<newline>'' (context_lines docs)"

definition relevant_docs :: "match list \<Rightarrow> match list" where
  "relevant_docs retrieved = filter (\<lambda>doc. m_score doc > 3 / 10) retrieved"

definition context_prompt :: "string \<Rightarrow> string \<Rightarrow> string" where
  "context_prompt context_text message =
     ''Here's some relevant information from uploaded documents:\<newline>\<newline>'' @ context_text
     @ ''\<newline>\<newline>Now, please answer this question: '' @ message"

definition fallback_note :: string where
  "fallback_note =
     ''(Note: No relevant document context was found for this query, so please answer using your general knowledge.)''"

definition fallback_prompt :: "string \<Rightarrow> string" where
  "fallback_prompt message = ''Question: '' @ message @ ''\<newline>\<newline>'' @ fallback_note"

text \<open>The user content of the retrieval branch of \<^verbatim>\<open>invoke\<close> (lines 75 to 82).\<close>

definition retrieval_user_content :: "string \<Rightarrow> match list \<Rightarrow> string" where
  "retrieval_user_content message retrieved =
     (let context_text = build_context retrieved
      in if relevant_docs retrieved \<noteq> [] \<and> strip context_text \<noteq> []
         then context_prompt context_text message
         else fallback_prompt message)"

text \<open>
  A history turn is a dictionary; \<^verbatim>\<open>turn.get("role", "user")\<close> and
  \<^verbatim>\<open>turn.get("content", "")\<close> read it. \<^verbatim>\<open>history[-3:]\<close> keeps the last three
  turns, or all of them when there are fewer.
\<close>

type_synonym turn = "string \<rightharpoonup> string"

definition turn_message :: "turn \<Rightarrow> chat_message" where
  "turn_message t =
     \<lparr>role = (case t ''role'' of None \<Rightarrow> ''user'' | Some r \<Rightarrow> r),
      content = (case t ''content'' of None \<Rightarrow> [] | Some c \<Rightarrow> c)\<rparr>"

definition last_three :: "'a list \<Rightarrow> 'a list" where
  "last_three history = drop (length history - 3) history"

definition build_messages :: "string \<Rightarrow> turn list \<Rightarrow> chat_message list" where
  "build_messages user_content history =
     [\<lparr>role = ''system'', content = SYSTEM_PROMPT\<rparr>, \<lparr>role = ''user'', content = user_content\<rparr>]
     @ map turn_message (last_three history)"

record citation =
  c_id :: string
  c_score :: real
  c_source :: "string option"

record chat_result =
  answer :: string
  citations :: "citation list"

definition citation_of :: "match \<Rightarrow> citation" where
  "citation_of d = \<lparr>c_id = m_id d, c_score = m_score d, c_source = m_metadata d ''source''\<rparr>"

text \<open>
  \<^verbatim>\<open>RAGChain.invoke\<close>. A general-conversation message makes no retrieval call; any
  other message is retrieved for first. The chat model is then called once, and
  \<^verbatim>\<open>completion.choices[0]\<close> raises \<^verbatim>\<open>IndexError\<close> when it returned no choice. The
  model identifier and the temperature of the call are constants of no claim and are left
  out of the recorded event.
\<close>

definition invoke ::
  "services \<Rightarrow> string \<Rightarrow> turn list option \<Rightarrow> int \<Rightarrow> string option \<Rightarrow> event list \<times> (error + chat_result)" where
  "invoke sv message history top_k namespace =
     (let history = (case history of None \<Rightarrow> [] | Some h \<Rightarrow> h);
          is_general = is_general_conversation message;
          (t1, r1) =
            (if is_general then ([], Inr ([], message))
             else (case query sv message top_k namespace of
                     (t, Inl e) \<Rightarrow> (t, Inl e)
                   | (t, Inr retrieved) \<Rightarrow>
                       (t, Inr (retrieved, retrieval_user_content message retrieved))))
      in case r1 of
           Inl e \<Rightarrow> (t1, Inl e)
         | Inr (retrieved, user_content) \<Rightarrow>
             (let messages = build_messages user_content history;
                  t2 = t1 @ [ChatCreate messages]
              in case chat_create sv messages of
                   Inl e \<Rightarrow> (t2, Inl (ExternalFailure e))
                 | Inr [] \<Rightarrow> (t2, Inl IndexError)
                 | Inr (first_choice # _) \<Rightarrow>
                     (t2, Inr \<lparr>answer = first_choice, citations = map citation_of retrieved\<rparr>)))"

text \<open>The calls that make up retrieval: the embedding of the query and the index query.\<close>

fun retrieval_call :: "event \<Rightarrow> bool" where
  "retrieval_call (EmbeddingsCreate texts) = True"
| "retrieval_call (IndexQuery v k ns) = True"
| "retrieval_call (ChatCreate msgs) = False"

section \<open>Ingestion (scripts/ingest.py)\<close>

text \<open>
  A \<^verbatim>\<open>pathlib.Path\<close> is read through three attributes only: \<^verbatim>\<open>str(path)\<close>,
  \<^verbatim>\<open>path.name\<close> and \<^verbatim>\<open>path.suffix\<close>. The file system and the PDF reader are
  external: reading either raises or returns (a page of a PDF may have no text).
\<close>

record path =
  p_str :: string
  p_name :: string
  p_suffix :: string

record file_services =
  pdf_pages :: "string \<Rightarrow> string + string option list"
  read_text :: "string \<Rightarrow> string + string"

definition page_text :: "string option \<Rightarrow> string" where
  "page_text t = (case t of None \<Rightarrow> [] | Some txt \<Rightarrow> txt)"

text \<open>\<^verbatim>\<open>file_to_text\<close>: the suffix is compared in lower case.\<close>

definition file_to_text :: "file_services \<Rightarrow> path \<Rightarrow> error + string" where
  "file_to_text fs file_path =
     (if lower (p_suffix file_path) = ''.pdf''
      then (case pdf_pages fs (p_str file_path) of
              Inl e \<Rightarrow> Inl (ExternalFailure e)
            | Inr pages \<Rightarrow> Inr (join ''\<newline>'' (map page_text pages)))
      else if lower (p_suffix file_path) \<in> {''.txt'', ''.md''}
      then (case read_text fs (p_str file_path) of
              Inl e \<Rightarrow> Inl (ExternalFailure e)
            | Inr txt \<Rightarrow> Inr txt)
      else Inl (UnsupportedFileType (''Unsupported file type: '' @ p_suffix file_path)))"

subsection \<open>The content hash\<close>

text \<open>
  \<^verbatim>\<open>hash_text\<close> is \<^verbatim>\<open>hashlib.sha256(text.encode("utf-8")).hexdigest()[:16]\<close>. The
  UTF-8 encoding of a code point below 128 is one byte, of one from 128 to 255 two bytes.
  SHA-256 is written out after FIPS 180-4: padding to a multiple of 64 bytes, the message
  schedule of 64 words and the 64 rounds of the compression function per block.
\<close>

type_synonym byte = "8 word"
type_synonym word32 = "32 word"

definition utf8_char :: "char \<Rightarrow> byte list" where
  "utf8_char c =
     (let n = (of_char c :: nat)
      in if n < 128 then [of_nat n] else [of_nat (192 + n div 64), of_nat (128 + n mod 64)])"

definition utf8_encode :: "string \<Rightarrow> byte list" where
  "utf8_encode s = concat (map utf8_char s)"

definition rotr :: "nat \<Rightarrow> word32 \<Rightarrow> word32" where
  "rotr n x = drop_bit n x OR push_bit (32 - n) x"

definition ch :: "word32 \<Rightarrow> word32 \<Rightarrow> word32 \<Rightarrow> word32" where
  "ch x y z = (x AND y) XOR (NOT x AND z)"

definition maj :: "word32 \<Rightarrow> word32 \<Rightarrow> word32 \<Rightarrow> word32" where
  "maj x y z = (x AND y) XOR (x AND z) XOR (y AND z)"

definition bsig0 :: "word32 \<Rightarrow> word32" where
  "bsig0 x = rotr 2 x XOR rotr 13 x XOR rotr 22 x"

definition bsig1 :: "word32 \<Rightarrow> word32" where
  "bsig1 x = rotr 6 x XOR rotr 11 x XOR rotr 25 x"

definition ssig0 :: "word32 \<Rightarrow> word32" where
  "ssig0 x = rotr 7 x XOR rotr 18 x XOR drop_bit 3 x"

definition ssig1 :: "word32 \<Rightarrow> word32" where
  "ssig1 x = rotr 17 x XOR rotr 19 x XOR drop_bit 10 x"

text \<open>The round constants, in the eight rows of eight in which the standard prints them.\<close>

definition sha256_k :: "word32 list" where
  "sha256_k = concat
     [[0x428a2f98, 0x71374491, 0xb5c0fbcf, 0xe9b5dba5, 0x3956c25b, 0x59f111f1, 0x923f82a4, 0xab1c5ed5],
      [0xd807aa98, 0x12835b01, 0x243185be, 0x550c7dc3, 0x72be5d74, 0x80deb1fe, 0x9bdc06a7, 0xc19bf174],
      [0xe49b69c1, 0xefbe4786, 0x0fc19dc6, 0x240ca1cc, 0x2de92c6f, 0x4a7484aa, 0x5cb0a9dc, 0x76f988da],
      [0x983e5152, 0xa831c66d, 0xb00327c8, 0xbf597fc7, 0xc6e00bf3, 0xd5a79147, 0x06ca6351, 0x14292967],
      [0x27b70a85, 0x2e1b2138, 0x4d2c6dfc, 0x53380d13, 0x650a7354, 0x766a0abb, 0x81c2c92e, 0x92722c85],
      [0xa2bfe8a1, 0xa81a664b, 0xc24b8b70, 0xc76c51a3, 0xd192e819, 0xd6990624, 0xf40e3585, 0x106aa070],
      [0x19a4c116, 0x1e376c08, 0x2748774c, 0x34b0bcb5, 0x391c0cb3, 0x4ed8aa4a, 0x5b9cca4f, 0x682e6ff3],
      [0x748f82ee, 0x78a5636f, 0x84c87814, 0x8cc70208, 0x90befffa, 0xa4506ceb, 0xbef9a3f7, 0xc67178f2]]"

type_synonym sha_state = "word32 \<times> word32 \<times> word32 \<times> word32 \<times> word32 \<times> word32 \<times> word32 \<times> word32"

definition sha256_h0 :: sha_state where
  "sha256_h0 =
     (0x6a09e667, 0xbb67ae85, 0x3c6ef372, 0xa54ff53a, 0x510e527f, 0x9b05688c, 0x1f83d9ab, 0x5be0cd19)"

definition be64 :: "64 word \<Rightarrow> byte list" where
  "be64 n = map (\<lambda>i. ucast (drop_bit (8 * i) n)) [7, 6, 5, 4, 3, 2, 1, 0]"

definition sha_pad :: "byte list \<Rightarrow> byte list" where
  "sha_pad msg =
     msg @ [0x80] @ replicate ((119 - length msg mod 64) mod 64) 0 @ be64 (of_nat (8 * length msg))"

fun be_words :: "byte list \<Rightarrow> word32 list" where
  "be_words (b0 # b1 # b2 # b3 # bs) =
     (push_bit 24 (ucast b0) OR push_bit 16 (ucast b1) OR push_bit 8 (ucast b2) OR ucast b3)
       # be_words bs"
| "be_words bs = []"

fun blocks :: "nat \<Rightarrow> byte list \<Rightarrow> byte list list" where
  "blocks 0 bs = []"
| "blocks (Suc k) bs = take 64 bs # blocks k (drop 64 bs)"

fun schedule_ext :: "nat \<Rightarrow> word32 list \<Rightarrow> word32 list" where
  "schedule_ext 0 w = w"
| "schedule_ext (Suc k) w =
     (let n = length w
      in schedule_ext k
           (w @ [ssig1 (w ! (n - 2)) + w ! (n - 7) + ssig0 (w ! (n - 15)) + w ! (n - 16)]))"

fun sha_round :: "sha_state \<Rightarrow> word32 \<times> word32 \<Rightarrow> sha_state" where
  "sha_round (a, b, c, d, e, f, g, h) (k, w) =
     (let t1 = h + bsig1 e + ch e f g + k + w;
          t2 = bsig0 a + maj a b c
      in (t1 + t2, a, b, c, d + t1, e, f, g))"

fun sha_add :: "sha_state \<Rightarrow> sha_state \<Rightarrow> sha_state" where
  "sha_add (a, b, c, d, e, f, g, h) (a', b', c', d', e', f', g', h') =
     (a + a', b + b', c + c', d + d', e + e', f + f', g + g', h + h')"

definition compress :: "sha_state \<Rightarrow> byte list \<Rightarrow> sha_state" where
  "compress hs block =
     sha_add hs (foldl sha_round hs (zip sha256_k (schedule_ext 48 (be_words block))))"

definition sha256 :: "byte list \<Rightarrow> sha_state" where
  "sha256 msg = (let p = sha_pad msg in foldl compress sha256_h0 (blocks (length p div 64) p))"

definition hex_digit :: "nat \<Rightarrow> char" where
  "hex_digit n = ''0123456789abcdef'' ! n"

definition hex32 :: "word32 \<Rightarrow> string" where
  "hex32 w = map (\<lambda>i. hex_digit (unat (drop_bit (4 * i) w AND 15))) [7, 6, 5, 4, 3, 2, 1, 0]"

fun hexdigest :: "sha_state \<Rightarrow> string" where
  "hexdigest (a, b, c, d, e, f, g, h) = concat (map hex32 [a, b, c, d, e, f, g, h])"

definition hash_text :: "string \<Rightarrow> string" where
  "hash_text text = take 16 (hexdigest (sha256 (utf8_encode text)))"

subsection \<open>Building the indexed items\<close>

text \<open>\<^verbatim>\<open>str(idx)\<close> of a non-negative integer: its decimal digits.\<close>

fun str_nat :: "nat \<Rightarrow> string" where
  "str_nat n =
     (if n < 10 then [char_of (48 + n)] else str_nat (n div 10) @ [char_of (48 + n mod 10)])"

declare str_nat.simps [simp del]

text \<open>The number that a decimal numeral denotes (Python's \<^verbatim>\<open>int(s)\<close> on digits).\<close>

definition decimal_value :: "string \<Rightarrow> nat" where
  "decimal_value s = foldl (\<lambda>acc c. 10 * acc + (of_char c - 48)) 0 s"

record item_metadata =
  md_source :: string
  md_chunk_id :: nat
  md_text :: string

type_synonym item = "string \<times> string \<times> item_metadata"

text \<open>
  \<^verbatim>\<open>build_items\<close>: the loop over \<^verbatim>\<open>enumerate(chunks)\<close>; \<open>build_items_from idx\<close> is the
  loop with the counter at \<open>idx\<close>.
\<close>

fun build_items_from :: "nat \<Rightarrow> path \<Rightarrow> string list \<Rightarrow> item list" where
  "build_items_from idx file_path [] = []"
| "build_items_from idx file_path (chunk # chunks) =
     (let cid = p_name file_path @ ''-'' @ str_nat idx @ ''-'' @ hash_text chunk
      in (cid, chunk, \<lparr>md_source = p_str file_path, md_chunk_id = idx, md_text = chunk\<rparr>)
           # build_items_from (Suc idx) file_path chunks)"

definition build_items :: "path \<Rightarrow> string list \<Rightarrow> item list" where
  "build_items file_path chunks = build_items_from 0 file_path chunks"

section \<open>Example services\<close>

text \<open>
  Services for running the chain on concrete inputs: the embedding service returns one
  vector per text, the index returns one match with the given score, and the chat model
  returns one choice.
\<close>

definition example_match :: "real \<Rightarrow> raw_match" where
  "example_match s =
     \<lparr>r_id = ''guide.txt-0-ba7816bf8f01cfea'', r_score = s,
      r_metadata = Some [''source'' \<mapsto> ''guide.txt'', ''text'' \<mapsto> ''abc'']\<rparr>"

definition example_services :: "real \<Rightarrow> services" where
  "example_services s =
     \<lparr>embeddings_create = (\<lambda>texts. Inr (map (\<lambda>t. [1 / 4, 3 / 4]) texts)),
      index_query = (\<lambda>v k ns. Inr (Some [example_match s])),
      chat_create = (\<lambda>msgs. Inr [''An answer.''])\<rparr>"

section \<open>Properties of the string primitives\<close>

lemma py_isspace_lower_char: "py_isspace (py_lower_char c) = py_isspace c"
  by (auto simp: py_isspace_def py_lower_char_def Let_def)

lemma isspace_comp_lower: "py_isspace \<circ> py_lower_char = py_isspace"
  by (rule ext) (simp add: py_isspace_lower_char)

lemma lower_lstrip: "lower (lstrip s) = lstrip (lower s)"
  by (simp add: lower_def lstrip_def dropWhile_map isspace_comp_lower)

lemma lower_rstrip: "lower (rstrip s) = rstrip (lower s)"
  by (simp add: lower_def rstrip_def dropWhile_map isspace_comp_lower rev_map)

lemma lower_strip: "lower (strip s) = strip (lower s)"
  by (simp add: strip_def lower_lstrip lower_rstrip)

lemma split_from_lower:
  "split_from (map py_lower_char cur) (map py_lower_char s) = map (map py_lower_char) (split_from cur s)"
proof (induction s arbitrary: cur)
  case Nil
  then show ?case by simp
next
  case (Cons c cs)
  have e: "split_from [] (map py_lower_char cs) = map (map py_lower_char) (split_from [] cs)"
    using Cons.IH [of "[]"] by simp
  have n: "split_from (map py_lower_char cur @ [py_lower_char c]) (map py_lower_char cs)
      = map (map py_lower_char) (split_from (cur @ [c]) cs)"
    using Cons.IH [of "cur @ [c]"] by simp
  show ?case by (simp add: py_isspace_lower_char e n)
qed

lemma length_split_lower: "length (split (lower s)) = length (split s)"
  using split_from_lower [of "[]" s] by (simp add: split_def lower_def)

lemma split_lstrip: "split (lstrip s) = split s"
  by (induction s) (auto simp: split_def lstrip_def)

lemma split_from_spaces:
  "\<forall>c \<in> set ws. py_isspace c \<Longrightarrow> split_from cur ws = split_from cur []"
  by (induction ws arbitrary: cur) auto

lemma split_from_append_spaces:
  "\<forall>c \<in> set ws. py_isspace c \<Longrightarrow> split_from cur (s @ ws) = split_from cur s"
  by (induction s arbitrary: cur) (auto simp: split_from_spaces)

lemma rstrip_decomp: "s = rstrip s @ rev (takeWhile py_isspace (rev s))"
proof -
  have "rev (takeWhile py_isspace (rev s) @ dropWhile py_isspace (rev s)) = rev (rev s)"
    by (simp only: takeWhile_dropWhile_id)
  then have "rev (dropWhile py_isspace (rev s)) @ rev (takeWhile py_isspace (rev s)) = s"
    by (simp only: rev_append rev_rev_ident)
  then show ?thesis by (simp only: rstrip_def)
qed

lemma split_rstrip: "split (rstrip s) = split s"
proof -
  have sp: "\<forall>c \<in> set (rev (takeWhile py_isspace (rev s))). py_isspace c"
    by (auto dest: set_takeWhileD)
  have "split s = split_from [] (rstrip s @ rev (takeWhile py_isspace (rev s)))"
    unfolding split_def using rstrip_decomp [of s] by simp
  also have "\<dots> = split_from [] (rstrip s)"
    using sp by (rule split_from_append_spaces)
  finally show ?thesis by (simp add: split_def)
qed

lemma split_strip: "split (strip s) = split s"
  by (simp add: strip_def split_rstrip split_lstrip)

lemma startswith_iff: "startswith s w \<longleftrightarrow> (\<exists>q. s = w @ q)"
  by (induction s w rule: startswith.induct) auto

lemma contains_iff: "contains s w \<longleftrightarrow> (\<exists>p q. s = p @ w @ q)"
proof (induction s)
  case Nil
  then show ?case by auto
next
  case (Cons c cs)
  show ?case
  proof
    assume "contains (c # cs) w"
    then consider "startswith (c # cs) w" | "contains cs w" by auto
    then show "\<exists>p q. c # cs = p @ w @ q"
    proof cases
      case 1
      then obtain q where "c # cs = w @ q" by (auto simp: startswith_iff)
      then have "c # cs = [] @ w @ q" by simp
      then show ?thesis by blast
    next
      case 2
      then obtain p q where "cs = p @ w @ q" using Cons.IH by blast
      then have "c # cs = (c # p) @ w @ q" by simp
      then show ?thesis by blast
    qed
  next
    assume "\<exists>p q. c # cs = p @ w @ q"
    then obtain p q where pq: "c # cs = p @ w @ q" by blast
    show "contains (c # cs) w"
    proof (cases p)
      case Nil
      with pq have "startswith (c # cs) w" by (auto simp: startswith_iff)
      then show ?thesis by simp
    next
      case (Cons a p')
      with pq have "cs = p' @ w @ q" by simp
      then have "contains cs w" using Cons.IH by blast
      then show ?thesis by simp
    qed
  qed
qed

lemma contains_lstrip:
  assumes "contains s w" "w \<noteq> []" "\<not> py_isspace (hd w)"
  shows "contains (lstrip s) w"
proof -
  from assms(1) obtain p q where "s = p @ w @ q" by (auto simp: contains_iff)
  moreover from assms(2) obtain a w' where w: "w = a # w'" by (cases w) auto
  ultimately have "s = p @ a # (w' @ q)" by simp
  moreover have "\<not> py_isspace a" using assms(3) w by simp
  ultimately have "lstrip s = dropWhile py_isspace p @ w @ q"
    using w by (simp add: lstrip_def dropWhile_append3)
  then show ?thesis by (auto simp: contains_iff)
qed

lemma contains_rev: "contains (rev s) (rev w) = contains s w"
proof -
  have "(\<exists>p q. rev s = p @ rev w @ q) \<longleftrightarrow> (\<exists>p q. s = p @ w @ q)"
  proof
    assume "\<exists>p q. rev s = p @ rev w @ q"
    then obtain p q where "rev s = p @ rev w @ q" by blast
    then have "rev (rev s) = rev (p @ rev w @ q)" by (rule arg_cong)
    then have "s = rev q @ w @ rev p" by simp
    then show "\<exists>p q. s = p @ w @ q" by blast
  next
    assume "\<exists>p q. s = p @ w @ q"
    then obtain p q where "s = p @ w @ q" by blast
    then have "rev s = rev q @ rev w @ rev p" by simp
    then show "\<exists>p q. rev s = p @ rev w @ q" by blast
  qed
  then show ?thesis by (simp add: contains_iff)
qed

lemma contains_rstrip:
  assumes "contains s w" "w \<noteq> []" "\<not> py_isspace (last w)"
  shows "contains (rstrip s) w"
proof -
  have "contains (rev s) (rev w)" using assms(1) by (simp add: contains_rev)
  moreover have "rev w \<noteq> []" using assms(2) by simp
  moreover have "\<not> py_isspace (hd (rev w))" using assms(2,3) by (simp add: hd_rev)
  ultimately have "contains (lstrip (rev s)) (rev w)" by (rule contains_lstrip)
  then have "contains (rev (lstrip (rev s))) (rev (rev w))" by (simp only: contains_rev)
  then show ?thesis by (simp add: rstrip_def lstrip_def)
qed

lemma contains_strip:
  assumes "contains s w" "w \<noteq> []" "\<not> py_isspace (hd w)" "\<not> py_isspace (last w)"
  shows "contains (strip s) w"
  unfolding strip_def using assms by (intro contains_rstrip contains_lstrip)

section \<open>Properties of the classifier\<close>

lemma filler_words_plain:
  "w \<in> set filler_words \<Longrightarrow> w \<noteq> [] \<and> \<not> py_isspace (hd w) \<and> \<not> py_isspace (last w)"
  by (auto simp: filler_words_def py_isspace_def)

lemma list_ex_filler:
  "list_ex (\<lambda>word. contains s word) filler_words \<longleftrightarrow> (\<exists>w \<in> set filler_words. contains s w)"
  by (simp add: list_ex_iff)

lemma length_split_strip_lower: "length (split (strip (lower s))) = length (split s)"
  by (simp add: split_strip length_split_lower)

text \<open>
  Claim C4. \<^verbatim>\<open>_is_general_conversation\<close> returns true exactly when the classifier of the
  specification does: on the trimmed message, without regard to case, the message is one of
  the fixed phrases, or it has at most two whitespace-delimited tokens and contains one of
  the filler words (as a substring, the reading claim C10 makes explicit). The code counts
  the tokens of the message as given and lower-cases before trimming; neither changes the
  outcome. The message \<open>hello\<close> is general conversation, the question about section 3 of
  the contract is not.
\<close>

theorem classifier_refines_spec:
  "(\<forall>message. is_general_conversation message = spec_isGeneralConversation message)
   \<and> is_general_conversation ''hello''
   \<and> \<not> is_general_conversation ''What does section 3 of the contract say about termination?''"
proof (intro conjI allI)
  fix message
  show "is_general_conversation message = spec_isGeneralConversation message"
    unfolding is_general_conversation_def spec_isGeneralConversation_def Let_def
    by (simp only: lower_strip length_split_strip_lower list_ex_filler) auto
next
  show "is_general_conversation ''hello''" by code_simp
next
  show "\<not> is_general_conversation ''What does section 3 of the contract say about termination?''"
    by code_simp
qed

theorem classifier_refines_spec_witness:
  "is_general_conversation ''Which one?'' = spec_isGeneralConversation ''Which one?''
   \<and> is_general_conversation ''Which one?''"
proof -
  have "is_general_conversation ''Which one?''" by code_simp
  then show ?thesis using classifier_refines_spec by simp
qed

section \<open>Properties of the answering chain\<close>

lemma invoke_general:
  assumes "is_general_conversation message"
  shows "invoke sv message history top_k namespace =
     (let msgs = build_messages message (case history of None \<Rightarrow> [] | Some h \<Rightarrow> h)
      in ([ChatCreate msgs],
          (case chat_create sv msgs of
             Inl e \<Rightarrow> Inl (ExternalFailure e)
           | Inr [] \<Rightarrow> Inl IndexError
           | Inr (a # rest) \<Rightarrow> Inr \<lparr>answer = a, citations = []\<rparr>)))"
  using assms by (simp add: invoke_def Let_def split: sum.splits list.splits)

text \<open>
  Claim C10. The filler-word test is substring containment on the lower-cased message, not
  a match of whole tokens: every message of at most two whitespace-delimited tokens whose
  lower-cased text contains one of the filler words anywhere, also inside a word, is
  classified as general conversation, and \<^verbatim>\<open>invoke\<close> makes no retrieval call for it.
  The messages \<open>which one?\<close> (it contains \<open>hi\<close>) and \<open>broken link\<close> (it contains
  \<open>ok\<close>) are instances.
\<close>

theorem substring_filler_is_general:
  assumes "length (split message) \<le> 2"
    and "\<exists>w \<in> set filler_words. contains (lower message) w"
  shows "is_general_conversation message
     \<and> \<not> list_ex retrieval_call (fst (invoke sv message history top_k namespace))"
proof -
  from assms(2) obtain w where w: "w \<in> set filler_words" "contains (lower message) w" by blast
  from w(1) have "w \<noteq> []" "\<not> py_isspace (hd w)" "\<not> py_isspace (last w)"
    using filler_words_plain by blast+
  with w(2) have "contains (strip (lower message)) w" by (intro contains_strip)
  with w(1) have "list_ex (\<lambda>word. contains (strip (lower message)) word) filler_words"
    unfolding list_ex_filler by blast
  with assms(1) have g: "is_general_conversation message"
    by (simp add: is_general_conversation_def Let_def)
  then show ?thesis by (simp add: invoke_general Let_def)
qed

theorem substring_filler_is_general_witness:
  "length (split ''which one?'') \<le> 2
   \<and> (\<exists>w \<in> set filler_words. contains (lower ''which one?'') w)
   \<and> is_general_conversation ''which one?''
   \<and> (\<forall>sv history top_k namespace.
         \<not> list_ex retrieval_call (fst (invoke sv ''which one?'' history top_k namespace)))
   \<and> is_general_conversation ''broken link''"
proof -
  have a: "length (split ''which one?'') \<le> 2" by code_simp
  have "list_ex (\<lambda>word. contains (lower ''which one?'') word) filler_words" by code_simp
  then have b: "\<exists>w \<in> set filler_words. contains (lower ''which one?'') w"
    by (simp only: list_ex_filler)
  have c: "length (split ''broken link'') \<le> 2" by code_simp
  have "list_ex (\<lambda>word. contains (lower ''broken link'') word) filler_words" by code_simp
  then have d: "\<exists>w \<in> set filler_words. contains (lower ''broken link'') w"
    by (simp only: list_ex_filler)
  show ?thesis
    using a b substring_filler_is_general [OF a b] substring_filler_is_general [OF c d]
    by blast
qed

lemma query_trace_retrieval: "e \<in> set (fst (query sv q top_k namespace)) \<Longrightarrow> retrieval_call e"
  by (auto simp: query_def embed_texts_def Let_def split: sum.splits list.splits)

lemma query_trace_no_chat: "ChatCreate msgs \<notin> set (fst (query sv q top_k namespace))"
  using query_trace_retrieval [of "ChatCreate msgs"] by auto

lemma invoke_query_failed:
  assumes "\<not> is_general_conversation message"
    and "query sv message top_k namespace = (t, Inl e)"
  shows "invoke sv message history top_k namespace = (t, Inl e)"
  using assms by (simp add: invoke_def Let_def)

lemma invoke_retrieved:
  assumes "\<not> is_general_conversation message"
    and "query sv message top_k namespace = (t, Inr retrieved)"
  shows "invoke sv message history top_k namespace =
     (let msgs = build_messages (retrieval_user_content message retrieved)
                   (case history of None \<Rightarrow> [] | Some h \<Rightarrow> h)
      in (t @ [ChatCreate msgs],
          (case chat_create sv msgs of
             Inl e \<Rightarrow> Inl (ExternalFailure e)
           | Inr [] \<Rightarrow> Inl IndexError
           | Inr (a # rest) \<Rightarrow> Inr \<lparr>answer = a, citations = map citation_of retrieved\<rparr>)))"
  using assms by (simp add: invoke_def Let_def split: sum.splits list.splits)

lemma lstrip_Nil_iff: "lstrip s = [] \<longleftrightarrow> (\<forall>c \<in> set s. py_isspace c)"
  by (simp add: lstrip_def dropWhile_eq_Nil_conv)

lemma rstrip_Nil_iff: "rstrip s = [] \<longleftrightarrow> (\<forall>c \<in> set s. py_isspace c)"
  by (simp add: rstrip_def dropWhile_eq_Nil_conv)

lemma strip_Nil_iff: "strip s = [] \<longleftrightarrow> (\<forall>c \<in> set s. py_isspace c)"
proof
  assume "strip s = []"
  then have "\<forall>c \<in> set (lstrip s). py_isspace c" by (simp add: strip_def rstrip_Nil_iff)
  then have "lstrip s = []"
    unfolding lstrip_def by (metis hd_dropWhile hd_in_set)
  then show "\<forall>c \<in> set s. py_isspace c" by (simp add: lstrip_Nil_iff)
next
  assume a: "\<forall>c \<in> set s. py_isspace c"
  then have "lstrip s = []" by (simp add: lstrip_Nil_iff)
  then show "strip s = []" by (simp add: strip_def rstrip_def)
qed

lemma build_context_nonblank:
  assumes "retrieved \<noteq> []"
  shows "strip (build_context retrieved) \<noteq> []"
proof -
  from assms obtain d docs where r: "retrieved = d # docs" by (cases retrieved) auto
  have "CHR ''S'' \<in> set (build_context retrieved)"
    unfolding r build_context_def by (simp add: Let_def)
  moreover have "\<not> py_isspace CHR ''S''" by (simp add: py_isspace_def)
  ultimately show ?thesis unfolding strip_Nil_iff by blast
qed

lemma relevant_docs_Nil_iff:
  "relevant_docs retrieved = [] \<longleftrightarrow> (\<forall>d \<in> set retrieved. \<not> m_score d > 3 / 10)"
  by (simp add: relevant_docs_def filter_empty_conv)

lemma contains_fallback_note: "contains (fallback_prompt message) fallback_note"
  unfolding contains_iff fallback_prompt_def
proof -
  have "''Question: '' @ message @ ''\<newline>\<newline>'' @ fallback_note
      = (''Question: '' @ message @ ''\<newline>\<newline>'') @ fallback_note @ []" by simp
  then show "\<exists>p q. ''Question: '' @ message @ ''\<newline>\<newline>'' @ fallback_note = p @ fallback_note @ q"
    by blast
qed

text \<open>
  Claim C5. On the retrieval path of \<^verbatim>\<open>invoke\<close> (the message is not general
  conversation and the retrieval returned its matches), the chat model is sent the system
  message and one user message whose content is decided by the scores: when no match has a
  score above 0.3 the content is the question followed by the note that no relevant
  document context was found, and the assembled context is not in it; when some match has a
  score above 0.3 and the assembled context is not blank, the content is the assembled
  context followed by the question.
\<close>

theorem relevance_gate_selects_prompt:
  assumes "\<not> is_general_conversation message"
    and "query sv message top_k namespace = (t, Inr retrieved)"
  shows "(\<exists>user_content.
            fst (invoke sv message history top_k namespace)
              = t @ [ChatCreate ([\<lparr>role = ''system'', content = SYSTEM_PROMPT\<rparr>,
                                  \<lparr>role = ''user'', content = user_content\<rparr>]
                                 @ map turn_message
                                     (last_three (case history of None \<Rightarrow> [] | Some h \<Rightarrow> h)))]
            \<and> ((\<forall>d \<in> set retrieved. \<not> m_score d > 3 / 10)
                 \<longrightarrow> user_content = ''Question: '' @ message @ ''\<newline>\<newline>'' @ fallback_note
                     \<and> contains user_content fallback_note)
            \<and> ((\<exists>d \<in> set retrieved. m_score d > 3 / 10) \<and> strip (build_context retrieved) \<noteq> []
                 \<longrightarrow> user_content
                       = ''Here's some relevant information from uploaded documents:\<newline>\<newline>''
                         @ build_context retrieved
                         @ ''\<newline>\<newline>Now, please answer this question: '' @ message))"
proof (intro exI conjI impI)
  show "fst (invoke sv message history top_k namespace)
      = t @ [ChatCreate ([\<lparr>role = ''system'', content = SYSTEM_PROMPT\<rparr>,
                          \<lparr>role = ''user'', content = retrieval_user_content message retrieved\<rparr>]
                         @ map turn_message
                             (last_three (case history of None \<Rightarrow> [] | Some h \<Rightarrow> h)))]"
    by (simp add: invoke_retrieved [OF assms] Let_def build_messages_def)
next
  assume "\<forall>d \<in> set retrieved. \<not> m_score d > 3 / 10"
  then have "relevant_docs retrieved = []" by (simp only: relevant_docs_Nil_iff)
  then have e: "retrieval_user_content message retrieved = fallback_prompt message"
    by (simp add: retrieval_user_content_def Let_def)
  then show "retrieval_user_content message retrieved
      = ''Question: '' @ message @ ''\<newline>\<newline>'' @ fallback_note"
    by (simp add: fallback_prompt_def)
  show "contains (retrieval_user_content message retrieved) fallback_note"
    unfolding e by (rule contains_fallback_note)
next
  assume "(\<exists>d \<in> set retrieved. m_score d > 3 / 10) \<and> strip (build_context retrieved) \<noteq> []"
  then have "relevant_docs retrieved \<noteq> []" "strip (build_context retrieved) \<noteq> []"
    by (auto simp: relevant_docs_Nil_iff)
  then show "retrieval_user_content message retrieved
      = ''Here's some relevant information from uploaded documents:\<newline>\<newline>''
        @ build_context retrieved
        @ ''\<newline>\<newline>Now, please answer this question: '' @ message"
    by (simp add: retrieval_user_content_def Let_def context_prompt_def)
qed

lemma example_query:
  "query (example_services s) q 5 None
     = ([EmbeddingsCreate [q], IndexQuery [1 / 4, 3 / 4] 5 ''default''],
        Inr [\<lparr>m_id = ''guide.txt-0-ba7816bf8f01cfea'', m_score = s,
              m_metadata = [''source'' \<mapsto> ''guide.txt'', ''text'' \<mapsto> ''abc'']\<rparr>])"
  by (simp add: query_def embed_texts_def example_services_def example_match_def
      namespace_or_default_def normalize_match_def Let_def)

lemma example_not_general: "\<not> is_general_conversation ''What is the refund policy?''"
  by code_simp

lemma example_context:
  "build_context [\<lparr>m_id = i, m_score = s,
                    m_metadata = [''source'' \<mapsto> ''guide.txt'', ''text'' \<mapsto> ''abc'']\<rparr>]
     = ''Source: guide.txt\<newline>abc\<newline>''"
  by (simp add: build_context_def snippet_of_def Let_def)

theorem relevance_gate_selects_prompt_witness:
  "\<not> is_general_conversation ''What is the refund policy?''
   \<and> fst (invoke (example_services (12 / 100)) ''What is the refund policy?'' None 5 None)
       = [EmbeddingsCreate [''What is the refund policy?''],
          IndexQuery [1 / 4, 3 / 4] 5 ''default'',
          ChatCreate [\<lparr>role = ''system'', content = SYSTEM_PROMPT\<rparr>,
                      \<lparr>role = ''user'',
                       content = ''Question: What is the refund policy?\<newline>\<newline>(Note: No relevant document context was found for this query, so please answer using your general knowledge.)''\<rparr>]]
   \<and> fst (invoke (example_services (87 / 100)) ''What is the refund policy?'' None 5 None)
       = [EmbeddingsCreate [''What is the refund policy?''],
          IndexQuery [1 / 4, 3 / 4] 5 ''default'',
          ChatCreate [\<lparr>role = ''system'', content = SYSTEM_PROMPT\<rparr>,
                      \<lparr>role = ''user'',
                       content = ''Here's some relevant information from uploaded documents:\<newline>\<newline>Source: guide.txt\<newline>abc\<newline>\<newline>\<newline>Now, please answer this question: What is the refund policy?''\<rparr>]]"
proof -
  let ?q = "''What is the refund policy?''"
  let ?d = "\<lambda>s. \<lparr>m_id = ''guide.txt-0-ba7816bf8f01cfea'', m_score = s,
              m_metadata = [''source'' \<mapsto> ''guide.txt'', ''text'' \<mapsto> ''abc'']\<rparr>"
  have nb: "strip (build_context [?d (87 / 100)]) \<noteq> []"
    by (rule build_context_nonblank) simp
  from relevance_gate_selects_prompt [OF example_not_general example_query, of "12 / 100" None]
  have low: "fst (invoke (example_services (12 / 100)) ?q None 5 None)
       = [EmbeddingsCreate [?q], IndexQuery [1 / 4, 3 / 4] 5 ''default'',
          ChatCreate [\<lparr>role = ''system'', content = SYSTEM_PROMPT\<rparr>,
                      \<lparr>role = ''user'', content = ''Question: '' @ ?q @ ''\<newline>\<newline>'' @ fallback_note\<rparr>]]"
    by (auto simp: last_three_def)
  from relevance_gate_selects_prompt [OF example_not_general example_query, of "87 / 100" None] nb
  have high: "fst (invoke (example_services (87 / 100)) ?q None 5 None)
       = [EmbeddingsCreate [?q], IndexQuery [1 / 4, 3 / 4] 5 ''default'',
          ChatCreate [\<lparr>role = ''system'', content = SYSTEM_PROMPT\<rparr>,
                      \<lparr>role = ''user'',
                       content = ''Here's some relevant information from uploaded documents:\<newline>\<newline>''
                         @ build_context [?d (87 / 100)]
                         @ ''\<newline>\<newline>Now, please answer this question: '' @ ?q\<rparr>]]"
    by (auto simp: last_three_def)
  show ?thesis
    using example_not_general low high by (simp add: fallback_note_def example_context)
qed

lemma query_result_order:
  assumes "query sv q top_k namespace = (t, Inr retrieved)"
  shows "\<exists>v reply. index_query sv v top_k (namespace_or_default namespace) = Inr reply
           \<and> retrieved = map normalize_match (case reply of None \<Rightarrow> [] | Some ms \<Rightarrow> ms)"
  using assms
  by (auto simp: query_def Let_def split: prod.splits sum.splits list.splits)

text \<open>
  Claim C6. For a message classified as general conversation, \<^verbatim>\<open>invoke\<close> makes exactly
  one external call, the chat call: no text is embedded and the index is not queried. The
  user message sent is the raw message, with no context around it, and the result, whenever
  there is one, has no citations; there is one as soon as the chat model returns a choice.
\<close>

theorem general_conversation_skips_retrieval:
  assumes "is_general_conversation message"
  shows "fst (invoke sv message history top_k namespace)
           = [ChatCreate ([\<lparr>role = ''system'', content = SYSTEM_PROMPT\<rparr>,
                           \<lparr>role = ''user'', content = message\<rparr>]
                          @ map turn_message
                              (last_three (case history of None \<Rightarrow> [] | Some h \<Rightarrow> h)))]
         \<and> \<not> list_ex retrieval_call (fst (invoke sv message history top_k namespace))
         \<and> (\<forall>r. snd (invoke sv message history top_k namespace) = Inr r \<longrightarrow> citations r = [])
         \<and> (\<forall>a rest.
               chat_create sv (build_messages message (case history of None \<Rightarrow> [] | Some h \<Rightarrow> h))
                 = Inr (a # rest)
               \<longrightarrow> snd (invoke sv message history top_k namespace)
                     = Inr \<lparr>answer = a, citations = []\<rparr>)"
  by (auto simp: invoke_general [OF assms] Let_def build_messages_def
      split: sum.splits list.splits)

theorem general_conversation_skips_retrieval_witness:
  "is_general_conversation ''hi''
   \<and> invoke (example_services (9 / 10)) ''hi'' None 5 None
       = ([ChatCreate [\<lparr>role = ''system'', content = SYSTEM_PROMPT\<rparr>,
                       \<lparr>role = ''user'', content = ''hi''\<rparr>]],
          Inr \<lparr>answer = ''An answer.'', citations = []\<rparr>)"
proof -
  have g: "is_general_conversation ''hi''" by code_simp
  have c: "chat_create (example_services (9 / 10)) (build_messages ''hi'' []) = Inr [''An answer.'']"
    by (simp add: example_services_def)
  from general_conversation_skips_retrieval [OF g, of "example_services (9 / 10)" None 5 None] c
  have "fst (invoke (example_services (9 / 10)) ''hi'' None 5 None)
       = [ChatCreate [\<lparr>role = ''system'', content = SYSTEM_PROMPT\<rparr>,
                      \<lparr>role = ''user'', content = ''hi''\<rparr>]]"
    and "snd (invoke (example_services (9 / 10)) ''hi'' None 5 None)
       = Inr \<lparr>answer = ''An answer.'', citations = []\<rparr>"
    by (simp_all add: last_three_def)
  then show ?thesis using g by (simp add: prod_eq_iff)
qed

text \<open>
  Claim C7. On the retrieval path the citations of the result are the projection to id,
  score and source of the matches that the retrieval returned, one citation per match and
  in the same order, which is the order of the index's reply. The scores play no part: the
  citations are the same whether the context or the fallback prompt was sent.
\<close>

theorem citations_project_retrieved:
  assumes "\<not> is_general_conversation message"
    and "query sv message top_k namespace = (t, Inr retrieved)"
  shows "(\<forall>r. snd (invoke sv message history top_k namespace) = Inr r
            \<longrightarrow> citations r
                  = map (\<lambda>d. \<lparr>c_id = m_id d, c_score = m_score d,
                               c_source = m_metadata d ''source''\<rparr>) retrieved)
         \<and> (\<forall>a rest.
               chat_create sv (build_messages (retrieval_user_content message retrieved)
                                 (case history of None \<Rightarrow> [] | Some h \<Rightarrow> h))
                 = Inr (a # rest)
               \<longrightarrow> snd (invoke sv message history top_k namespace)
                     = Inr \<lparr>answer = a,
                            citations = map (\<lambda>d. \<lparr>c_id = m_id d, c_score = m_score d,
                                                   c_source = m_metadata d ''source''\<rparr>) retrieved\<rparr>)
         \<and> (\<exists>v reply. index_query sv v top_k (namespace_or_default namespace) = Inr reply
               \<and> retrieved = map normalize_match (case reply of None \<Rightarrow> [] | Some ms \<Rightarrow> ms))"
proof -
  have c: "map citation_of retrieved
      = map (\<lambda>d. \<lparr>c_id = m_id d, c_score = m_score d, c_source = m_metadata d ''source''\<rparr>) retrieved"
    by (simp add: citation_of_def)
  show ?thesis
    using query_result_order [OF assms(2)]
    by (auto simp: invoke_retrieved [OF assms] Let_def c split: sum.splits list.splits)
qed

theorem citations_project_retrieved_witness:
  "\<not> is_general_conversation ''What is the refund policy?''
   \<and> relevant_docs (map normalize_match [example_match (12 / 100)]) = []
   \<and> snd (invoke (example_services (12 / 100)) ''What is the refund policy?'' None 5 None)
       = Inr \<lparr>answer = ''An answer.'',
              citations = [\<lparr>c_id = ''guide.txt-0-ba7816bf8f01cfea'', c_score = 12 / 100,
                             c_source = Some ''guide.txt''\<rparr>]\<rparr>"
proof -
  have c: "chat_create (example_services (12 / 100)) msgs = Inr [''An answer.'']" for msgs
    by (simp add: example_services_def)
  have r: "relevant_docs (map normalize_match [example_match (12 / 100)]) = []"
    by (simp add: relevant_docs_def normalize_match_def example_match_def)
  from citations_project_retrieved [OF example_not_general example_query, of "12 / 100" None] c
  have "snd (invoke (example_services (12 / 100)) ''What is the refund policy?'' None 5 None)
       = Inr \<lparr>answer = ''An answer.'',
              citations = [\<lparr>c_id = ''guide.txt-0-ba7816bf8f01cfea'', c_score = 12 / 100,
                             c_source = Some ''guide.txt''\<rparr>]\<rparr>"
    by simp
  then show ?thesis using example_not_general r by simp
qed

lemma last_three_length: "length (last_three h) = min 3 (length h)"
  by (auto simp: last_three_def)

lemma last_three_suffix: "\<exists>older. h = older @ last_three h"
proof -
  have "h = take (length h - 3) h @ last_three h" by (simp add: last_three_def)
  then show ?thesis by blast
qed

text \<open>
  Claim C8. Whatever the history, every message sequence that \<^verbatim>\<open>invoke\<close> sends to the
  chat model is the fixed system message, then one user message, then the messages of the
  last three history turns (of all turns when there are fewer), in their order: the turns
  before them are left out. A turn that has a role and a content is passed on with exactly
  these; \<^verbatim>\<open>turn.get\<close> fills in \<open>user\<close> and the empty string for a turn that lacks one.
\<close>

theorem history_window:
  "(\<forall>msgs. ChatCreate msgs \<in> set (fst (invoke sv message history top_k namespace))
      \<longrightarrow> (\<exists>user_content.
             msgs = [\<lparr>role = ''system'', content = SYSTEM_PROMPT\<rparr>,
                     \<lparr>role = ''user'', content = user_content\<rparr>]
                    @ map turn_message
                        (last_three (case history of None \<Rightarrow> [] | Some h \<Rightarrow> h))))
   \<and> length (last_three (case history of None \<Rightarrow> [] | Some h \<Rightarrow> h))
       = min 3 (length (case history of None \<Rightarrow> [] | Some h \<Rightarrow> h))
   \<and> (\<exists>older. (case history of None \<Rightarrow> [] | Some h \<Rightarrow> h)
         = older @ last_three (case history of None \<Rightarrow> [] | Some h \<Rightarrow> h))
   \<and> (\<forall>t r c. t ''role'' = Some r \<and> t ''content'' = Some c
         \<longrightarrow> turn_message t = \<lparr>role = r, content = c\<rparr>)"
proof (intro conjI allI impI)
  fix msgs
  assume m: "ChatCreate msgs \<in> set (fst (invoke sv message history top_k namespace))"
  let ?h = "case history of None \<Rightarrow> [] | Some h \<Rightarrow> h"
  show "\<exists>user_content.
          msgs = [\<lparr>role = ''system'', content = SYSTEM_PROMPT\<rparr>,
                  \<lparr>role = ''user'', content = user_content\<rparr>]
                 @ map turn_message (last_three ?h)"
  proof (cases "is_general_conversation message")
    case True
    with m have "msgs = build_messages message ?h"
      by (simp add: invoke_general Let_def)
    then show ?thesis by (auto simp: build_messages_def)
  next
    case False
    obtain t res where q: "query sv message top_k namespace = (t, res)"
      by (cases "query sv message top_k namespace") auto
    have nc: "ChatCreate msgs \<notin> set t"
      using query_trace_no_chat [of msgs sv message top_k namespace] q by simp
    show ?thesis
    proof (cases res)
      case (Inl e)
      with m nc q False show ?thesis by (simp add: invoke_query_failed)
    next
      case (Inr retrieved)
      with m nc q False
      have "msgs = build_messages (retrieval_user_content message retrieved) ?h"
        by (simp add: invoke_retrieved Let_def)
      then show ?thesis by (auto simp: build_messages_def)
    qed
  qed
next
  show "length (last_three (case history of None \<Rightarrow> [] | Some h \<Rightarrow> h))
      = min 3 (length (case history of None \<Rightarrow> [] | Some h \<Rightarrow> h))"
    by (rule last_three_length)
next
  show "\<exists>older. (case history of None \<Rightarrow> [] | Some h \<Rightarrow> h)
      = older @ last_three (case history of None \<Rightarrow> [] | Some h \<Rightarrow> h)"
    by (rule last_three_suffix)
next
  fix t :: turn and r c
  assume "t ''role'' = Some r \<and> t ''content'' = Some c"
  then show "turn_message t = \<lparr>role = r, content = c\<rparr>" by (simp add: turn_message_def)
qed

theorem history_window_witness:
  "fst (invoke (example_services (9 / 10)) ''hi''
          (Some [[''role'' \<mapsto> ''user'', ''content'' \<mapsto> ''q1''],
                 [''role'' \<mapsto> ''assistant'', ''content'' \<mapsto> ''a1''],
                 [''role'' \<mapsto> ''user'', ''content'' \<mapsto> ''q2''],
                 [''role'' \<mapsto> ''assistant'', ''content'' \<mapsto> ''a2''],
                 [''content'' \<mapsto> ''q3'']]) 5 None)
     = [ChatCreate [\<lparr>role = ''system'', content = SYSTEM_PROMPT\<rparr>,
                    \<lparr>role = ''user'', content = ''hi''\<rparr>,
                    \<lparr>role = ''user'', content = ''q2''\<rparr>,
                    \<lparr>role = ''assistant'', content = ''a2''\<rparr>,
                    \<lparr>role = ''user'', content = ''q3''\<rparr>]]"
proof -
  let ?h = "[[''role'' \<mapsto> ''user'', ''content'' \<mapsto> ''q1''],
             [''role'' \<mapsto> ''assistant'', ''content'' \<mapsto> ''a1''],
             [''role'' \<mapsto> ''user'', ''content'' \<mapsto> ''q2''],
             [''role'' \<mapsto> ''assistant'', ''content'' \<mapsto> ''a2''],
             [''content'' \<mapsto> ''q3'']] :: turn list"
  let ?tr = "fst (invoke (example_services (9 / 10)) ''hi'' (Some ?h) 5 None)"
  have g: "is_general_conversation ''hi''" by code_simp
  have tr: "?tr = [ChatCreate (build_messages ''hi'' ?h)]"
    by (simp add: invoke_general [OF g] Let_def)
  then have "ChatCreate (build_messages ''hi'' ?h) \<in> set ?tr" by simp
  with history_window [of "example_services (9 / 10)" "''hi''" "Some ?h" 5 None]
  obtain user_content where
    "build_messages ''hi'' ?h
       = [\<lparr>role = ''system'', content = SYSTEM_PROMPT\<rparr>,
          \<lparr>role = ''user'', content = user_content\<rparr>] @ map turn_message (last_three ?h)"
    by auto
  then have "build_messages ''hi'' ?h
       = [\<lparr>role = ''system'', content = SYSTEM_PROMPT\<rparr>,
          \<lparr>role = ''user'', content = ''hi''\<rparr>] @ map turn_message (last_three ?h)"
    by (simp add: build_messages_def)
  with tr show ?thesis by (simp add: last_three_def turn_message_def)
qed

section \<open>Properties of ingestion\<close>

text \<open>
  Claim C9. \<^verbatim>\<open>file_to_text\<close> fails with the unsupported-file-type error exactly for the
  paths whose extension is none of \<open>.pdf\<close>, \<open>.txt\<close> and \<open>.md\<close>; the extension is
  compared in lower case, as the code does, so \<open>.PDF\<close> counts as \<open>.pdf\<close>. For a
  supported extension the result is the text read or the failure of the reader, never the
  unsupported-file-type error.
\<close>

theorem unsupported_extension_fails:
  "(lower (p_suffix file_path) \<notin> {''.pdf'', ''.txt'', ''.md''}
      \<longrightarrow> file_to_text fs file_path
            = Inl (UnsupportedFileType (''Unsupported file type: '' @ p_suffix file_path)))
   \<and> (lower (p_suffix file_path) \<in> {''.pdf'', ''.txt'', ''.md''}
      \<longrightarrow> (\<forall>msg. file_to_text fs file_path \<noteq> Inl (UnsupportedFileType msg)))"
  by (auto simp: file_to_text_def split: sum.splits)

theorem unsupported_extension_fails_witness:
  "file_to_text \<lparr>pdf_pages = (\<lambda>p. Inr [Some ''page one'', None, Some ''page three'']),
                 read_text = (\<lambda>p. Inr ''plain text'')\<rparr>
       \<lparr>p_str = ''docs/report.docx'', p_name = ''report.docx'', p_suffix = ''.docx''\<rparr>
     = Inl (UnsupportedFileType ''Unsupported file type: .docx'')
   \<and> file_to_text \<lparr>pdf_pages = (\<lambda>p. Inr [Some ''page one'', None, Some ''page three'']),
                    read_text = (\<lambda>p. Inr ''plain text'')\<rparr>
       \<lparr>p_str = ''docs/REPORT.PDF'', p_name = ''REPORT.PDF'', p_suffix = ''.PDF''\<rparr>
     = Inr ''page one\<newline>\<newline>page three''
   \<and> file_to_text \<lparr>pdf_pages = (\<lambda>p. Inr [Some ''page one'', None, Some ''page three'']),
                    read_text = (\<lambda>p. Inr ''plain text'')\<rparr>
       \<lparr>p_str = ''notes.md'', p_name = ''notes.md'', p_suffix = ''.md''\<rparr>
     = Inr ''plain text''"
proof -
  let ?fs = "\<lparr>pdf_pages = (\<lambda>p. Inr [Some ''page one'', None, Some ''page three'']),
              read_text = (\<lambda>p. Inr ''plain text'')\<rparr> :: file_services"
  let ?docx = "\<lparr>p_str = ''docs/report.docx'', p_name = ''report.docx'', p_suffix = ''.docx''\<rparr>"
  have ld: "lower ''.docx'' = ''.docx''" by code_simp
  have lp: "lower ''.PDF'' = ''.pdf''" by code_simp
  have lm: "lower ''.md'' = ''.md''" by code_simp
  have l: "lower (p_suffix ?docx) \<notin> {''.pdf'', ''.txt'', ''.md''}"
    by (simp add: ld)
  have a: "file_to_text ?fs ?docx = Inl (UnsupportedFileType ''Unsupported file type: .docx'')"
    using unsupported_extension_fails [of ?docx ?fs] l by simp
  have b: "file_to_text ?fs \<lparr>p_str = ''docs/REPORT.PDF'', p_name = ''REPORT.PDF'', p_suffix = ''.PDF''\<rparr>
      = Inr ''page one\<newline>\<newline>page three''"
    by (simp add: file_to_text_def lp page_text_def)
  have c: "file_to_text ?fs \<lparr>p_str = ''notes.md'', p_name = ''notes.md'', p_suffix = ''.md''\<rparr>
      = Inr ''plain text''"
    by (simp add: file_to_text_def lm)
  from a b c show ?thesis by simp
qed

lemma hex_digit_hex: "n < 16 \<Longrightarrow> hex_digit n \<in> set ''0123456789abcdef''"
  unfolding hex_digit_def by (rule nth_mem) simp

lemma unat_and_15: "unat ((w :: word32) AND 15) < 16"
proof -
  have "w AND 15 \<le> 15" by (rule word_and_le1)
  then have "unat (w AND 15) \<le> unat (15 :: word32)" by (simp add: word_le_nat_alt)
  then show ?thesis by simp
qed

lemma hex32_length: "length (hex32 w) = 8"
  by (simp add: hex32_def)

lemma hex32_hex:
  assumes "c \<in> set (hex32 w)"
  shows "c \<in> set ''0123456789abcdef''"
proof -
  from assms have "c \<in> (\<lambda>i. hex_digit (unat (drop_bit (4 * i) w AND 15)))
                       ` set [7, 6, 5, 4, 3, 2, 1, 0 :: nat]"
    unfolding hex32_def by (simp only: set_map)
  then obtain i where "c = hex_digit (unat (drop_bit (4 * i) w AND 15))" by blast
  then show ?thesis using hex_digit_hex [OF unat_and_15] by simp
qed

lemma hexdigest_length: "length (hexdigest st) = 64"
  by (cases st rule: hexdigest.cases) (simp add: hex32_length)

lemma hexdigest_hex:
  assumes "c \<in> set (hexdigest st)"
  shows "c \<in> set ''0123456789abcdef''"
proof (cases st rule: hexdigest.cases)
  case (1 a b c' d e f g h)
  with assms obtain w where "c \<in> set (hex32 w)" by auto
  then show ?thesis by (rule hex32_hex)
qed

lemma hash_text_length: "length (hash_text t) = 16"
  by (simp add: hash_text_def hexdigest_length)

lemma hash_text_hex:
  assumes "c \<in> set (hash_text t)"
  shows "c \<in> set ''0123456789abcdef''"
proof -
  from assms have "c \<in> set (hexdigest (sha256 (utf8_encode t)))"
    unfolding hash_text_def by (rule in_set_takeD)
  then show ?thesis by (rule hexdigest_hex)
qed

lemma build_items_from_length: "length (build_items_from idx p chunks) = length chunks"
  by (induction chunks arbitrary: idx) (simp_all add: Let_def)

lemma build_items_from_nth:
  "i < length chunks \<Longrightarrow>
     build_items_from idx p chunks ! i
       = (p_name p @ ''-'' @ str_nat (idx + i) @ ''-'' @ hash_text (chunks ! i), chunks ! i,
          \<lparr>md_source = p_str p, md_chunk_id = idx + i, md_text = chunks ! i\<rparr>)"
proof (induction chunks arbitrary: idx i)
  case Nil
  then show ?case by simp
next
  case (Cons chunk chunks)
  show ?case
  proof (cases i)
    case 0
    then show ?thesis by (simp add: Let_def)
  next
    case (Suc j)
    with Cons.prems have "j < length chunks" by simp
    from Cons.IH [OF this, of "Suc idx"] Suc show ?thesis by (simp add: Let_def)
  qed
qed

lemma build_items_from_ids:
  "p_name p = p_name p' \<Longrightarrow>
     map fst (build_items_from idx p chunks) = map fst (build_items_from idx p' chunks)"
  by (induction chunks arbitrary: idx) (simp_all add: Let_def)

lemma decimal_value_snoc: "decimal_value (s @ [c]) = 10 * decimal_value s + (of_char c - 48)"
  by (simp add: decimal_value_def)

lemma digit_char: "d < 10 \<Longrightarrow> of_char (char_of (48 + d)) = 48 + (d :: nat)"
  by simp

lemma str_nat_small: "n < 10 \<Longrightarrow> str_nat n = [char_of (48 + n)]"
  by (subst str_nat.simps) simp

lemma str_nat_large:
  "\<not> n < 10 \<Longrightarrow> str_nat n = str_nat (n div 10) @ [char_of (48 + n mod 10)]"
  by (subst str_nat.simps) simp

lemma decimal_value_str_nat: "decimal_value (str_nat n) = n"
proof (induction n rule: str_nat.induct)
  case (1 n)
  show ?case
  proof (cases "n < 10")
    case True
    have "decimal_value (str_nat n) = decimal_value ([] @ [char_of (48 + n)])"
      by (simp only: str_nat_small [OF True] append_Nil)
    also have "\<dots> = 10 * decimal_value [] + (of_char (char_of (48 + n)) - 48)"
      by (rule decimal_value_snoc)
    also have "\<dots> = n"
      by (simp only: digit_char [OF True]) (simp add: decimal_value_def)
    finally show ?thesis .
  next
    case False
    have d: "n mod 10 < 10" by simp
    have ih: "decimal_value (str_nat (n div 10)) = n div 10" by (rule "1.IH" [OF False])
    have "decimal_value (str_nat n)
        = 10 * decimal_value (str_nat (n div 10)) + (of_char (char_of (48 + n mod 10)) - 48)"
      by (simp only: str_nat_large [OF False] decimal_value_snoc)
    also have "\<dots> = 10 * (n div 10) + (48 + n mod 10 - 48)"
      by (simp only: ih digit_char [OF d])
    also have "\<dots> = n" by simp
    finally show ?thesis .
  qed
qed

lemma str_nat_inj: "str_nat i = str_nat j \<Longrightarrow> i = j"
  by (metis decimal_value_str_nat)

lemma item_id_inj:
  assumes "nm @ ''-'' @ str_nat i @ ''-'' @ hash_text a = nm @ ''-'' @ str_nat j @ ''-'' @ hash_text b"
  shows "i = j \<and> hash_text a = hash_text b"
proof -
  define u where "u = ''-'' @ hash_text a"
  define v where "v = ''-'' @ hash_text b"
  from assms have e: "str_nat i @ u = str_nat j @ v" by (simp add: u_def v_def)
  have "length u = length v" by (simp add: u_def v_def hash_text_length)
  then have "(str_nat i @ u = str_nat j @ v) = (str_nat i = str_nat j \<and> u = v)"
    by (intro append_eq_append_conv disjI2)
  with e have "str_nat i = str_nat j" "u = v" by blast+
  then show ?thesis using str_nat_inj by (simp add: u_def v_def)
qed

lemma build_items_distinct_ids: "distinct (map fst (build_items p chunks))"
proof -
  let ?ids = "map fst (build_items p chunks)"
  have len: "length ?ids = length chunks" by (simp add: build_items_def build_items_from_length)
  have nth: "?ids ! i = p_name p @ ''-'' @ str_nat i @ ''-'' @ hash_text (chunks ! i)"
    if "i < length chunks" for i
    using that by (simp add: build_items_def build_items_from_length build_items_from_nth)
  show ?thesis
    unfolding distinct_conv_nth
  proof (intro allI impI)
    fix i j
    assume "i < length ?ids" "j < length ?ids" "i \<noteq> j"
    then have "i < length chunks" "j < length chunks" using len by simp_all
    then have "?ids ! i = p_name p @ ''-'' @ str_nat i @ ''-'' @ hash_text (chunks ! i)"
      and "?ids ! j = p_name p @ ''-'' @ str_nat j @ ''-'' @ hash_text (chunks ! j)"
      by (simp_all only: nth)
    with \<open>i \<noteq> j\<close> show "?ids ! i \<noteq> ?ids ! j" using item_id_inj by metis
  qed
qed

lemma digit_chars: "\<forall>d \<in> set [0..<10]. char_of (48 + d) \<in> set ''0123456789''"
  by code_simp

lemma digit_char_mem: "(d :: nat) < 10 \<Longrightarrow> char_of (48 + d) \<in> set ''0123456789''"
proof -
  assume "d < 10"
  then have "d \<in> set [0..<10]" by simp
  with digit_chars show ?thesis by blast
qed

lemma digit_zero_iff: "\<forall>d \<in> set [0..<10]. (char_of (48 + d) = CHR ''0'') = (d = 0)"
  by code_simp

lemma str_nat_digits: "c \<in> set (str_nat n) \<Longrightarrow> c \<in> set ''0123456789''"
proof (induction n rule: str_nat.induct)
  case (1 n)
  show ?case
  proof (cases "n < 10")
    case True
    with "1.prems" have "c = char_of (48 + n)" by (simp add: str_nat_small)
    with True show ?thesis by (simp only: digit_char_mem)
  next
    case False
    have d: "n mod 10 < 10" by simp
    from False "1.prems" have "c \<in> set (str_nat (n div 10)) \<or> c = char_of (48 + n mod 10)"
      by (auto simp: str_nat_large)
    then show ?thesis
    proof
      assume "c \<in> set (str_nat (n div 10))"
      then show ?thesis by (rule "1.IH" [OF False])
    next
      assume "c = char_of (48 + n mod 10)"
      then show ?thesis by (simp only: digit_char_mem [OF d])
    qed
  qed
qed

lemma str_nat_nonempty: "str_nat n \<noteq> []"
  by (cases "n < 10") (simp_all add: str_nat_small str_nat_large)

lemma str_nat_no_leading_zero: "n \<noteq> 0 \<Longrightarrow> hd (str_nat n) \<noteq> CHR ''0''"
proof (induction n rule: str_nat.induct)
  case (1 n)
  show ?case
  proof (cases "n < 10")
    case True
    then have "n \<in> set [0..<10]" by simp
    with digit_zero_iff have "(char_of (48 + n) = CHR ''0'') = (n = 0)" by blast
    with "1.prems" True show ?thesis by (simp add: str_nat_small)
  next
    case False
    then have "n div 10 \<noteq> 0" by simp
    then have "hd (str_nat (n div 10)) \<noteq> CHR ''0''" by (rule "1.IH" [OF False])
    with False show ?thesis by (simp add: str_nat_large str_nat_nonempty)
  qed
qed

lemma str_nat_values:
  "str_nat 0 = ''0'' \<and> str_nat 1 = ''1'' \<and> str_nat 9 = ''9'' \<and> str_nat 10 = ''10''
   \<and> str_nat 11 = ''11'' \<and> str_nat 120 = ''120''"
  by code_simp

lemma sha256_empty: "hash_text [] = ''e3b0c44298fc1c14''"
  by code_simp

lemma sha256_abc: "hash_text ''abc'' = ''ba7816bf8f01cfea''"
  by code_simp

lemma sha256_hello_world: "hash_text ''hello world'' = ''b94d27b9934d3e08''"
  by code_simp

lemma sha256_two_blocks: "hash_text (replicate 56 CHR ''a'' @ [CHR 0xE9]) = ''28afdcebc2a965ea''"
  by code_simp

text \<open>
  Claim C3. \<^verbatim>\<open>hash_text\<close> of a text is the first 16 characters of the hexadecimal
  SHA-256 digest of its UTF-8 encoding: 16 characters, each a lower-case hexadecimal digit,
  with the values that SHA-256 has on the empty text, on \<open>abc\<close>, on \<open>hello world\<close> and
  on a text of 57 characters whose encoding fills two blocks and has a two-byte character.
  It is a function of the text alone (the source reads no other state), so the same text
  always has the same hash. The position of a chunk is written in decimal: digits only, no
  leading zero, and reading the digits gives the position back. \<^verbatim>\<open>build_items\<close> makes
  one item per chunk; the item at position \<open>i\<close> has the id made of the file name, the
  position and the hash of the chunk's text, joined by hyphens, then the chunk's text, and
  the metadata with the path, the position and the text. The ids of one file are pairwise
  different, and they depend on the file's name and the chunk texts only: ingesting the
  same chunks of a file of the same name again gives the same ids.
\<close>

theorem item_ids_content_addressed:
  "length (hash_text t) = 16
   \<and> (\<forall>c \<in> set (hash_text t). c \<in> set ''0123456789abcdef'')
   \<and> hash_text t = take 16 (hexdigest (sha256 (utf8_encode t)))
   \<and> hash_text [] = ''e3b0c44298fc1c14''
   \<and> hash_text ''abc'' = ''ba7816bf8f01cfea''
   \<and> hash_text ''hello world'' = ''b94d27b9934d3e08''
   \<and> hash_text (replicate 56 CHR ''a'' @ [CHR 0xE9]) = ''28afdcebc2a965ea''
   \<and> decimal_value (str_nat n) = n
   \<and> str_nat n \<noteq> []
   \<and> (\<forall>c \<in> set (str_nat n). c \<in> set ''0123456789'')
   \<and> (n \<noteq> 0 \<longrightarrow> hd (str_nat n) \<noteq> CHR ''0'')
   \<and> length (build_items p chunks) = length chunks
   \<and> (\<forall>i < length chunks.
         build_items p chunks ! i
           = (p_name p @ ''-'' @ str_nat i @ ''-'' @ hash_text (chunks ! i), chunks ! i,
              \<lparr>md_source = p_str p, md_chunk_id = i, md_text = chunks ! i\<rparr>))
   \<and> distinct (map fst (build_items p chunks))
   \<and> (\<forall>p'. p_name p' = p_name p
         \<longrightarrow> map fst (build_items p' chunks) = map fst (build_items p chunks))"
proof (intro conjI ballI allI impI)
  show "length (hash_text t) = 16" by (rule hash_text_length)
next
  fix c assume "c \<in> set (hash_text t)"
  then show "c \<in> set ''0123456789abcdef''" by (rule hash_text_hex)
next
  show "hash_text t = take 16 (hexdigest (sha256 (utf8_encode t)))" by (simp add: hash_text_def)
next
  show "hash_text [] = ''e3b0c44298fc1c14''" by (rule sha256_empty)
next
  show "hash_text ''abc'' = ''ba7816bf8f01cfea''" by (rule sha256_abc)
next
  show "hash_text ''hello world'' = ''b94d27b9934d3e08''" by (rule sha256_hello_world)
next
  show "hash_text (replicate 56 CHR ''a'' @ [CHR 0xE9]) = ''28afdcebc2a965ea''"
    by (rule sha256_two_blocks)
next
  show "decimal_value (str_nat n) = n" by (rule decimal_value_str_nat)
next
  show "str_nat n \<noteq> []" by (rule str_nat_nonempty)
next
  fix c assume "c \<in> set (str_nat n)"
  then show "c \<in> set ''0123456789''" by (rule str_nat_digits)
next
  assume "n \<noteq> 0"
  then show "hd (str_nat n) \<noteq> CHR ''0''" by (rule str_nat_no_leading_zero)
next
  show "length (build_items p chunks) = length chunks"
    by (simp add: build_items_def build_items_from_length)
next
  fix i assume "i < length chunks"
  then show "build_items p chunks ! i
      = (p_name p @ ''-'' @ str_nat i @ ''-'' @ hash_text (chunks ! i), chunks ! i,
         \<lparr>md_source = p_str p, md_chunk_id = i, md_text = chunks ! i\<rparr>)"
    by (simp add: build_items_def build_items_from_nth)
next
  show "distinct (map fst (build_items p chunks))" by (rule build_items_distinct_ids)
next
  fix p' :: path assume "p_name p' = p_name p"
  then show "map fst (build_items p' chunks) = map fst (build_items p chunks)"
    unfolding build_items_def by (rule build_items_from_ids)
qed

theorem item_ids_content_addressed_witness:
  "build_items \<lparr>p_str = ''docs/guide.txt'', p_name = ''guide.txt'', p_suffix = ''.txt''\<rparr>
     [''abc'', ''hello world'', ''abc'', ''abc'', ''abc'', ''abc'',
      ''abc'', ''abc'', ''abc'', ''abc'', ''abc'', ''hello world''] ! 0
     = (''guide.txt-0-ba7816bf8f01cfea'', ''abc'',
        \<lparr>md_source = ''docs/guide.txt'', md_chunk_id = 0, md_text = ''abc''\<rparr>)
   \<and> build_items \<lparr>p_str = ''docs/guide.txt'', p_name = ''guide.txt'', p_suffix = ''.txt''\<rparr>
     [''abc'', ''hello world'', ''abc'', ''abc'', ''abc'', ''abc'',
      ''abc'', ''abc'', ''abc'', ''abc'', ''abc'', ''hello world''] ! 1
     = (''guide.txt-1-b94d27b9934d3e08'', ''hello world'',
        \<lparr>md_source = ''docs/guide.txt'', md_chunk_id = 1, md_text = ''hello world''\<rparr>)
   \<and> build_items \<lparr>p_str = ''docs/guide.txt'', p_name = ''guide.txt'', p_suffix = ''.txt''\<rparr>
     [''abc'', ''hello world'', ''abc'', ''abc'', ''abc'', ''abc'',
      ''abc'', ''abc'', ''abc'', ''abc'', ''abc'', ''hello world''] ! 11
     = (''guide.txt-11-b94d27b9934d3e08'', ''hello world'',
        \<lparr>md_source = ''docs/guide.txt'', md_chunk_id = 11, md_text = ''hello world''\<rparr>)
   \<and> decimal_value ''11'' = 11"
proof -
  let ?p = "\<lparr>p_str = ''docs/guide.txt'', p_name = ''guide.txt'', p_suffix = ''.txt''\<rparr>"
  let ?chunks = "[''abc'', ''hello world'', ''abc'', ''abc'', ''abc'', ''abc'',
                  ''abc'', ''abc'', ''abc'', ''abc'', ''abc'', ''hello world'']"
  note th = item_ids_content_addressed [of "''abc''" 11 ?p ?chunks]
  have v: "str_nat 0 = ''0''" "str_nat 1 = ''1''" "str_nat 11 = ''11''"
    using str_nat_values by simp_all
  from th have h: "hash_text ''abc'' = ''ba7816bf8f01cfea''"
    "hash_text ''hello world'' = ''b94d27b9934d3e08''"
    by blast+
  from th have d: "decimal_value (str_nat 11) = 11" by blast
  from th have nth: "\<forall>i < length ?chunks.
      build_items ?p ?chunks ! i
        = (p_name ?p @ ''-'' @ str_nat i @ ''-'' @ hash_text (?chunks ! i), ?chunks ! i,
           \<lparr>md_source = p_str ?p, md_chunk_id = i, md_text = ?chunks ! i\<rparr>)"
    by blast
  have l: "length ?chunks = 12" by simp
  have i0: "build_items ?p ?chunks ! 0
      = (''guide.txt-0-ba7816bf8f01cfea'', ''abc'',
         \<lparr>md_source = ''docs/guide.txt'', md_chunk_id = 0, md_text = ''abc''\<rparr>)"
    using nth [rule_format, of 0] by (simp add: v h)
  have i1: "build_items ?p ?chunks ! 1
      = (''guide.txt-1-b94d27b9934d3e08'', ''hello world'',
         \<lparr>md_source = ''docs/guide.txt'', md_chunk_id = 1, md_text = ''hello world''\<rparr>)"
    using nth [rule_format, of 1] v(2) h(2) by simp
  have i11: "build_items ?p ?chunks ! 11
      = (''guide.txt-11-b94d27b9934d3e08'', ''hello world'',
         \<lparr>md_source = ''docs/guide.txt'', md_chunk_id = 11, md_text = ''hello world''\<rparr>)"
    using nth [rule_format, of 11] v(3) h(2) by simp
  from d have "decimal_value ''11'' = 11" by (simp only: v)
  with i0 i1 i11 show ?thesis by blast
qed

end
